theory Spec2Isabelle
  imports Main
begin

section \<open>Collaborators of the Traversal module\<close>

text \<open>
  The module \<^verbatim>\<open>src/Traversal.ts\<close> abstracts over an effect type \<open>F\<close> by passing a
  capability record. HOL cannot quantify over type constructors, so the types
  \<open>HKT<F, A>\<close> and \<open>HKT<F, S>\<close> of the source appear as separate type variables
  \<open>'fa\<close>, \<open>'fs\<close>, and the type of the capability record itself as \<open>'F\<close>. A definition
  that is polymorphic in these variables can be used at every effect.
\<close>

subsection \<open>Applicative capability and the identity effect\<close>

text \<open>Modelled from the spec: the applicative capability of the library \<^verbatim>\<open>fp-ts\<close> (imported,
  not part of this repository). Section 6 of the specification asks for two members:
  "lift a plain value into \<open>F\<close>" and "combine two effectful values with a binary function,
  preserving order". The record gives both at the type instance at which a traversal
  strategy for a container \<open>'t\<close> with elements \<open>'a\<close> uses them.
\<close>

record ('a, 'fa, 't, 'ft) Applicative =
  lift :: "'t \<Rightarrow> 'ft"
  combine :: "('t \<Rightarrow> 'a \<Rightarrow> 't) \<Rightarrow> 'ft \<Rightarrow> 'fa \<Rightarrow> 'ft"

text \<open>Modelled from the spec: the constant \<^verbatim>\<open>identity\<close> imported from \<^verbatim>\<open>fp-ts/lib/Identity\<close>,
  the "no-effect (pure/identity) applicative" of section 4.3: an effectful value is the
  plain value, lifting does nothing and combining applies the binary function.
\<close>

definition identity :: "('a, 'a, 't, 't) Applicative" where
  "identity = \<lparr>lift = (\<lambda>t. t), combine = (\<lambda>g ft fa. g ft fa)\<rparr>"

text \<open>
  A second effect, to run a traversal at something else than the identity: it records
  instead of rebuilding. An effectful value is the list of what has been seen; lifting
  a plain value has seen nothing, and combining puts what the two sides have seen one
  after the other.
\<close>

definition recording :: "('a, 'w list, 't, 'w list) Applicative" where
  "recording = \<lparr>lift = (\<lambda>_. []), combine = (\<lambda>_ ft fa. ft @ fa)\<rparr>"

subsection \<open>Traversable strategies\<close>

text \<open>Modelled from the spec: the interface \<^verbatim>\<open>Traversable<T>\<close> of \<^verbatim>\<open>fp-ts\<close>. Its member
  \<^verbatim>\<open>traverse(F)(ta, f)\<close> applies the effectful function \<open>f\<close> to every element of the
  container \<open>ta\<close> and reassembles the container inside the effect.
\<close>

record ('F, 'a, 'fa, 'ta, 'fta) Traversable =
  traverse :: "'F \<Rightarrow> 'ta \<Rightarrow> ('a \<Rightarrow> 'fa) \<Rightarrow> 'fta"

text \<open>Modelled from the spec: the strategy for sequences (section 6: "apply an effectful
  function to each element of \<open>T<A>\<close> and reassemble \<open>T<B>\<close>, sequencing effects
  left-to-right"). The elements are folded from the left; each step combines the
  effect holding the elements rebuilt so far with the effect of the next element and
  appends the new element at the end.
\<close>

definition arrayTraversable ::
  "(('a, 'fa, 'a list, 'fas) Applicative, 'a, 'fa, 'a list, 'fas) Traversable" where
  "arrayTraversable =
     \<lparr>traverse = (\<lambda>F ta f.
        foldl (\<lambda>fbs a. combine F (\<lambda>bs b. bs @ [b]) fbs (f a)) (lift F []) ta)\<rparr>"

subsection \<open>Iso, Lens, Prism and Optional\<close>

text \<open>Modelled from the spec: the interface \<^verbatim>\<open>Iso<S, A>\<close> imported from \<^verbatim>\<open>./Iso\<close>
  (section 6: "Iso: forward+reverse total conversions").
\<close>

record ('s, 'a) Iso =
  get :: "'s \<Rightarrow> 'a"
  reverseGet :: "'a \<Rightarrow> 's"

text \<open>Modelled from the spec: the interface \<^verbatim>\<open>Lens<S, A>\<close> imported from \<^verbatim>\<open>./Lens\<close>
  (section 6: "Lens: total get+total set"). The member \<^verbatim>\<open>set\<close> carries a prime: HOL's
  lists use the name.
\<close>

record ('s, 'a) Lens =
  get :: "'s \<Rightarrow> 'a"
  set' :: "'a \<Rightarrow> 's \<Rightarrow> 's"

text \<open>Modelled from the spec: the interface \<^verbatim>\<open>Prism<S, A>\<close> imported from \<^verbatim>\<open>./Prism\<close>
  (section 6: "Prism: partial get+total reverse construction"). An absent value of
  \<^verbatim>\<open>Option<A>\<close> is \<open>None\<close>.
\<close>

record ('s, 'a) Prism =
  getOption :: "'s \<Rightarrow> 'a option"
  reverseGet :: "'a \<Rightarrow> 's"

text \<open>Modelled from the spec: the interface \<^verbatim>\<open>Optional<S, A>\<close> imported from
  \<^verbatim>\<open>./Optional\<close> (section 6: "Optional: partial get+partial set"): \<^verbatim>\<open>set\<close> writes the
  focus where there is one.
\<close>

record ('s, 'a) Optional =
  getOption :: "'s \<Rightarrow> 'a option"
  set' :: "'a \<Rightarrow> 's \<Rightarrow> 's"

section \<open>The Traversal model\<close>

text \<open>
  \<^verbatim>\<open>interface Traversal<S, A> { readonly modifyF: ModifyF<S, A> }\<close>: one member, which takes
  the applicative capability, an effectful function on the targets and a structure.
\<close>

record ('F, 'a, 'fa, 's, 'fs) Traversal =
  modifyF :: "'F \<Rightarrow> ('a \<Rightarrow> 'fa) \<Rightarrow> 's \<Rightarrow> 'fs"

subsection \<open>Constructor\<close>

text \<open>
  \<^verbatim>\<open>fromTraversable(T)\<close> returns a function of no arguments (the call only fixes the
  element type); the unit argument stands for that call.
\<close>

definition fromTraversable ::
  "('F, 'a, 'fa, 'ta, 'fta) Traversable \<Rightarrow> unit \<Rightarrow> ('F, 'a, 'fa, 'ta, 'fta) Traversal" where
  "fromTraversable T = (\<lambda>_.
     \<lparr>modifyF = (\<lambda>F. let traverseF = traverse T F in (\<lambda>f s. traverseF s f))\<rparr>)"

subsection \<open>The internal module\<close>

text \<open>Modelled from the spec: \<^verbatim>\<open>I.traversalComposeIso\<close> of the module \<^verbatim>\<open>./internal\<close>, which is not
  among the sources. Section 4.2: "for each \<open>A\<close> target, convert to \<open>B\<close>, apply the
  transformation, convert back to \<open>A\<close>, substitute". This and the next three
  compositions are given at effects whose effectful values are the plain values (the
  identity effect, at which \<^verbatim>\<open>modify\<close> and \<^verbatim>\<open>set\<close> run every traversal); the capability is
  handed on to the outer traversal unchanged.
\<close>

definition traversalComposeIso ::
  "('a, 'b) Iso \<Rightarrow> ('F, 'a, 'a, 's, 'fs) Traversal \<Rightarrow> ('F, 'b, 'b, 's, 'fs) Traversal" where
  "traversalComposeIso ab sa =
     \<lparr>modifyF = (\<lambda>F f. modifyF sa F (\<lambda>a. Iso.reverseGet ab (f (Iso.get ab a))))\<rparr>"

text \<open>Modelled from the spec: \<^verbatim>\<open>I.traversalComposeLens\<close>. Section 4.2: "for each \<open>A\<close> target,
  extract its single \<open>B\<close>, transform, re-inject, substitute the resulting \<open>A\<close>".
\<close>

definition traversalComposeLens ::
  "('a, 'b) Lens \<Rightarrow> ('F, 'a, 'a, 's, 'fs) Traversal \<Rightarrow> ('F, 'b, 'b, 's, 'fs) Traversal" where
  "traversalComposeLens ab sa =
     \<lparr>modifyF = (\<lambda>F f. modifyF sa F (\<lambda>a. Lens.set' ab (f (Lens.get ab a)) a))\<rparr>"

text \<open>Modelled from the spec: \<^verbatim>\<open>I.traversalComposePrism\<close>. Section 4.2: "for each \<open>A\<close> target,
  attempt to view \<open>B\<close>; if absent, leave that \<open>A\<close> untouched (the transformation is
  skipped only for that target, not for the whole structure); if present, transform and
  re-embed".
\<close>

definition traversalComposePrism ::
  "('a, 'b) Prism \<Rightarrow> ('F, 'a, 'a, 's, 'fs) Traversal \<Rightarrow> ('F, 'b, 'b, 's, 'fs) Traversal" where
  "traversalComposePrism ab sa =
     \<lparr>modifyF = (\<lambda>F f. modifyF sa F (\<lambda>a.
        case Prism.getOption ab a of
          None \<Rightarrow> a
        | Some b \<Rightarrow> Prism.reverseGet ab (f b)))\<rparr>"

text \<open>Modelled from the spec: \<^verbatim>\<open>I.traversalComposeOptional\<close>. Section 4.2: "identical policy
  to the prism case, but the other optic expresses a 0-or-1 relation that need not also
  reconstruct from scratch (it supports partial update)": a present \<open>B\<close> is transformed
  and written back into its \<open>A\<close> with the optional's \<^verbatim>\<open>set\<close>.
\<close>

definition traversalComposeOptional ::
  "('a, 'b) Optional \<Rightarrow> ('F, 'a, 'a, 's, 'fs) Traversal \<Rightarrow> ('F, 'b, 'b, 's, 'fs) Traversal" where
  "traversalComposeOptional ab sa =
     \<lparr>modifyF = (\<lambda>F f. modifyF sa F (\<lambda>a.
        case Optional.getOption ab a of
          None \<Rightarrow> a
        | Some b \<Rightarrow> Optional.set' ab (f b) a))\<rparr>"

text \<open>Modelled from the spec: \<^verbatim>\<open>I.traversalComposeTraversal\<close>. Section 4.2: "for each outer \<open>A\<close>
  target, run the inner Traversal's own rebuild over that \<open>A\<close> [...] and sequence those
  nested effects in the same pass as the outer sequencing". This composition is given
  at every effect.
\<close>

definition traversalComposeTraversal ::
  "('F, 'b, 'fb, 'a, 'fa) Traversal \<Rightarrow> ('F, 'a, 'fa, 's, 'fs) Traversal
     \<Rightarrow> ('F, 'b, 'fb, 's, 'fs) Traversal" where
  "traversalComposeTraversal ab sa =
     \<lparr>modifyF = (\<lambda>F f. modifyF sa F (modifyF ab F f))\<rparr>"

text \<open>Modelled from the spec: \<^verbatim>\<open>I.prismFromPredicate\<close>. Section 4.3: "a prism constructed
  from the predicate (view succeeds only if the predicate holds; re-embedding is
  identity)".
\<close>

definition prismFromPredicate :: "('a \<Rightarrow> bool) \<Rightarrow> ('a, 'a) Prism" where
  "prismFromPredicate predicate =
     \<lparr>Prism.getOption = (\<lambda>a. if predicate a then Some a else None),
      Prism.reverseGet = (\<lambda>a. a)\<rparr>"

text \<open>Modelled from the spec: \<^verbatim>\<open>I.prismFromSome\<close>. Section 4.3 (\<^verbatim>\<open>some\<close>): the view of an
  optionally present target succeeds on the present ones; re-embedding wraps the value
  as present again.
\<close>

definition prismFromSome :: "('a option, 'a) Prism" where
  "prismFromSome = \<lparr>Prism.getOption = (\<lambda>oa. oa), Prism.reverseGet = (\<lambda>a. Some a)\<rparr>"

text \<open>Modelled from the spec: \<^verbatim>\<open>I.lensId\<close>, the lens that focuses on the whole value
  (it is the start of the pipe \<^verbatim>\<open>pipe(I.lensId(), I.lensProp(prop))\<close> of the source, which
  section 4.3 describes as one lens on the named field).
\<close>

definition lensId :: "('s, 's) Lens" where
  "lensId = \<lparr>Lens.get = (\<lambda>s. s), Lens.set' = (\<lambda>a _. a)\<rparr>"

text \<open>Modelled from the spec: \<^verbatim>\<open>I.lensProp\<close>. Section 4.3 (\<^verbatim>\<open>prop\<close>): "a lens that
  extracts/re-injects the single named field of each target \<open>A\<close>". A target with fields
  is a function from its keys \<open>'k\<close> (\<^verbatim>\<open>keyof A\<close>) to the field values, so that a name
  outside \<open>'k\<close> is rejected by the types, as in the source. \<^verbatim>\<open>lensProp\<close> extends the lens
  it is given.
\<close>

definition lensProp :: "'k \<Rightarrow> ('s, 'k \<Rightarrow> 'v) Lens \<Rightarrow> ('s, 'v) Lens" where
  "lensProp prop lens =
     \<lparr>Lens.get = (\<lambda>s. (Lens.get lens s) prop),
      Lens.set' = (\<lambda>ap s. Lens.set' lens ((Lens.get lens s)(prop := ap)) s)\<rparr>"

subsection \<open>Compositions\<close>

text \<open>
  The five compositions of the source are the functions of the internal module under
  their public names (\<^verbatim>\<open>export const composePrism = I.traversalComposePrism\<close>, and so on).
\<close>

definition composeIso ::
  "('a, 'b) Iso \<Rightarrow> ('F, 'a, 'a, 's, 'fs) Traversal \<Rightarrow> ('F, 'b, 'b, 's, 'fs) Traversal" where
  "composeIso = traversalComposeIso"

definition composeLens ::
  "('a, 'b) Lens \<Rightarrow> ('F, 'a, 'a, 's, 'fs) Traversal \<Rightarrow> ('F, 'b, 'b, 's, 'fs) Traversal" where
  "composeLens = traversalComposeLens"

definition composePrism ::
  "('a, 'b) Prism \<Rightarrow> ('F, 'a, 'a, 's, 'fs) Traversal \<Rightarrow> ('F, 'b, 'b, 's, 'fs) Traversal" where
  "composePrism = traversalComposePrism"

definition composeOptional ::
  "('a, 'b) Optional \<Rightarrow> ('F, 'a, 'a, 's, 'fs) Traversal \<Rightarrow> ('F, 'b, 'b, 's, 'fs) Traversal" where
  "composeOptional = traversalComposeOptional"

definition composeTraversal ::
  "('F, 'b, 'fb, 'a, 'fa) Traversal \<Rightarrow> ('F, 'a, 'fa, 's, 'fs) Traversal
     \<Rightarrow> ('F, 'b, 'fb, 's, 'fs) Traversal" where
  "composeTraversal = traversalComposeTraversal"

subsection \<open>Combinators\<close>

text \<open>
  \<^verbatim>\<open>modify = (f) => (sa) => sa.modifyF(identity)(f)\<close>: the primitive of the traversal at the
  identity effect, where \<^verbatim>\<open>HKT<F, A>\<close> is \<open>A\<close> and \<^verbatim>\<open>HKT<F, S>\<close> is \<open>S\<close>.
\<close>

definition modify ::
  "('a \<Rightarrow> 'a) \<Rightarrow> (('x, 'x, 't, 't) Applicative, 'a, 'a, 's, 's) Traversal \<Rightarrow> 's \<Rightarrow> 's" where
  "modify f sa = modifyF sa identity f"

text \<open>
  \<^verbatim>\<open>set = (a) => modify(() => a)\<close>, \<^verbatim>\<open>filter = (predicate) =>
  composePrism(I.prismFromPredicate(predicate))\<close>, \<^verbatim>\<open>prop = (prop) =>
  composeLens(pipe(I.lensId(), I.lensProp(prop)))\<close> and \<^verbatim>\<open>some =
  composePrism(I.prismFromSome())\<close>. The first three carry the suffix \<open>T\<close> here: \<open>set\<close> and
  \<open>filter\<close> are names of HOL's lists, the third name is reserved.
\<close>

definition setT ::
  "'a \<Rightarrow> (('x, 'x, 't, 't) Applicative, 'a, 'a, 's, 's) Traversal \<Rightarrow> 's \<Rightarrow> 's" where
  "setT a = modify (\<lambda>_. a)"

definition filterT ::
  "('a \<Rightarrow> bool) \<Rightarrow> ('F, 'a, 'a, 's, 'fs) Traversal \<Rightarrow> ('F, 'a, 'a, 's, 'fs) Traversal" where
  "filterT predicate = composePrism (prismFromPredicate predicate)"

definition propT ::
  "'k \<Rightarrow> ('F, 'k \<Rightarrow> 'v, 'k \<Rightarrow> 'v, 's, 'fs) Traversal \<Rightarrow> ('F, 'v, 'v, 's, 'fs) Traversal" where
  "propT prop = composeLens (lensProp prop lensId)"

definition some ::
  "('F, 'a option, 'a option, 's, 'fs) Traversal \<Rightarrow> ('F, 'a, 'a, 's, 'fs) Traversal" where
  "some = composePrism prismFromSome"

section \<open>Laws of the collaborators\<close>

text \<open>
  The module verifies no law: section 4.1 of the specification says that the laws of a
  strategy "are assumed, not re-verified, by this layer", and section 6 asks every
  collaborator to satisfy its own. The predicates below state these laws at the identity
  effect, the effect at which \<^verbatim>\<open>modify\<close> and \<^verbatim>\<open>set\<close> run a traversal.
\<close>

definition traverseIdentityLaw ::
  "(('x, 'x, 't, 't) Applicative, 'a, 'a, 's, 's) Traversable \<Rightarrow> bool" where
  "traverseIdentityLaw T \<longleftrightarrow> (\<forall>s. traverse T identity s (\<lambda>a. a) = s)"

definition traverseCompositionLaw ::
  "(('x, 'x, 't, 't) Applicative, 'a, 'a, 's, 's) Traversable \<Rightarrow> bool" where
  "traverseCompositionLaw T \<longleftrightarrow>
     (\<forall>f g s. traverse T identity (traverse T identity s f) g
                = traverse T identity s (\<lambda>a. g (f a)))"

definition isoLaws :: "('a, 'b) Iso \<Rightarrow> bool" where
  "isoLaws ab \<longleftrightarrow>
     (\<forall>a. Iso.reverseGet ab (Iso.get ab a) = a) \<and>
     (\<forall>b. Iso.get ab (Iso.reverseGet ab b) = b)"

definition lensLaws :: "('a, 'b) Lens \<Rightarrow> bool" where
  "lensLaws ab \<longleftrightarrow>
     (\<forall>a. Lens.set' ab (Lens.get ab a) a = a) \<and>
     (\<forall>a b. Lens.get ab (Lens.set' ab b a) = b) \<and>
     (\<forall>a b. Lens.set' ab b (Lens.set' ab b a) = Lens.set' ab b a)"

definition prismLaws :: "('a, 'b) Prism \<Rightarrow> bool" where
  "prismLaws ab \<longleftrightarrow>
     (\<forall>a. (case Prism.getOption ab a of None \<Rightarrow> a | Some b \<Rightarrow> Prism.reverseGet ab b) = a) \<and>
     (\<forall>b. Prism.getOption ab (Prism.reverseGet ab b) = Some b)"

definition optionalLaws :: "('a, 'b) Optional \<Rightarrow> bool" where
  "optionalLaws ab \<longleftrightarrow>
     (\<forall>a. (case Optional.getOption ab a of None \<Rightarrow> a | Some b \<Rightarrow> Optional.set' ab b a) = a) \<and>
     (\<forall>a b. Optional.getOption ab (Optional.set' ab b a)
              = map_option (\<lambda>_. b) (Optional.getOption ab a)) \<and>
     (\<forall>a b. Optional.set' ab b (Optional.set' ab b a) = Optional.set' ab b a)"

text \<open>
  The two properties of a traversal that the claims on the identity law and on the
  idempotence of \<^verbatim>\<open>set\<close> are about. The second is stated for every idempotent
  transformation of the targets, which is what the compositions preserve.
\<close>

definition identityLaw ::
  "(('x, 'x, 't, 't) Applicative, 'a, 'a, 's, 's) Traversal \<Rightarrow> bool" where
  "identityLaw sa \<longleftrightarrow> (\<forall>s. modify (\<lambda>a. a) sa s = s)"

definition idempotenceLaw ::
  "(('x, 'x, 't, 't) Applicative, 'a, 'a, 's, 's) Traversal \<Rightarrow> bool" where
  "idempotenceLaw sa \<longleftrightarrow>
     (\<forall>h. (\<forall>a. h (h a) = h a) \<longrightarrow> (\<forall>s. modify h sa (modify h sa s) = modify h sa s))"

text \<open>
  Two strategies that the interface \<^verbatim>\<open>Traversable<T>\<close> admits, at every effect, and that
  break the laws: the first traverses the sequence from its end, the second traverses it
  twice. \<^verbatim>\<open>fromTraversable\<close> accepts both, since the module verifies no law.
\<close>

definition reversingTraversable ::
  "(('a, 'fa, 'a list, 'fas) Applicative, 'a, 'fa, 'a list, 'fas) Traversable" where
  "reversingTraversable = \<lparr>traverse = (\<lambda>F ta f. traverse arrayTraversable F (rev ta) f)\<rparr>"

definition doublingTraversable ::
  "(('a, 'fa, 'a list, 'fas) Applicative, 'a, 'fa, 'a list, 'fas) Traversable" where
  "doublingTraversable = \<lparr>traverse = (\<lambda>F ta f. traverse arrayTraversable F (ta @ ta) f)\<rparr>"

text \<open>
  The records of the specification's scenario for \<^verbatim>\<open>prop\<close>, \<^verbatim>\<open>{x: 1, y: "a"}\<close>: two keys,
  and field values that are numbers or strings.
\<close>

datatype field = Field_x | Field_y

datatype val = Num int | Str string

section \<open>What modify computes\<close>

subsection \<open>On a sequence\<close>

lemma foldl_snoc: "foldl (\<lambda>bs a. bs @ [f a]) acc xs = acc @ map f xs"
  by (induction xs arbitrary: acc) simp_all

lemma traverse_array_identity: "traverse arrayTraversable identity xs f = map f xs"
  by (simp add: arrayTraversable_def identity_def foldl_snoc)

lemma modify_fromTraversable: "modify f (fromTraversable T ()) s = traverse T identity s f"
  by (simp add: modify_def fromTraversable_def)

lemma modify_array: "modify f (fromTraversable arrayTraversable ()) xs = map f xs"
  by (simp add: modify_fromTraversable traverse_array_identity)

lemma array_identityLaw: "traverseIdentityLaw arrayTraversable"
  by (simp add: traverseIdentityLaw_def traverse_array_identity)

lemma array_compositionLaw: "traverseCompositionLaw arrayTraversable"
  by (simp add: traverseCompositionLaw_def traverse_array_identity comp_def)

subsection \<open>Through a composition\<close>

lemma modify_composeIso:
  "modify f (composeIso ab sa) = modify (\<lambda>a. Iso.reverseGet ab (f (Iso.get ab a))) sa"
  by (simp add: modify_def composeIso_def traversalComposeIso_def)

lemma modify_composeLens:
  "modify f (composeLens ab sa) = modify (\<lambda>a. Lens.set' ab (f (Lens.get ab a)) a) sa"
  by (simp add: modify_def composeLens_def traversalComposeLens_def)

lemma modify_composePrism:
  "modify f (composePrism ab sa) =
     modify (\<lambda>a. case Prism.getOption ab a of
                    None \<Rightarrow> a
                  | Some b \<Rightarrow> Prism.reverseGet ab (f b)) sa"
  by (simp add: modify_def composePrism_def traversalComposePrism_def)

lemma modify_composeOptional:
  "modify f (composeOptional ab sa) =
     modify (\<lambda>a. case Optional.getOption ab a of
                    None \<Rightarrow> a
                  | Some b \<Rightarrow> Optional.set' ab (f b) a) sa"
  by (simp add: modify_def composeOptional_def traversalComposeOptional_def)

lemma modify_composeTraversal:
  "modify f (composeTraversal ab sa) = modify (modify f ab) sa"
  by (simp add: modify_def composeTraversal_def traversalComposeTraversal_def)

lemma modify_filterT:
  "modify f (filterT p sa) = modify (\<lambda>a. if p a then f a else a) sa"
proof -
  have "(\<lambda>a. case Prism.getOption (prismFromPredicate p) a of
               None \<Rightarrow> a
             | Some b \<Rightarrow> Prism.reverseGet (prismFromPredicate p) (f b))
        = (\<lambda>a. if p a then f a else a)"
    by (auto simp: prismFromPredicate_def)
  then show ?thesis
    by (simp add: filterT_def modify_composePrism)
qed

lemma modify_some:
  "modify f (some sa) = modify (\<lambda>oa. case oa of None \<Rightarrow> None | Some a \<Rightarrow> Some (f a)) sa"
proof -
  have "(\<lambda>oa. case Prism.getOption prismFromSome oa of
                None \<Rightarrow> oa
              | Some b \<Rightarrow> Prism.reverseGet prismFromSome (f b))
        = (\<lambda>oa. case oa of None \<Rightarrow> None | Some a \<Rightarrow> Some (f a))"
    by (auto simp: prismFromSome_def fun_eq_iff split: option.splits)
  then show ?thesis
    by (simp add: some_def modify_composePrism)
qed

lemma modify_propT:
  "modify f (propT k sa) = modify (\<lambda>a. a(k := f (a k))) sa"
  by (simp add: propT_def modify_composeLens lensProp_def lensId_def)

subsection \<open>The optics built by this module obey their laws\<close>

lemma prismFromSome_laws: "prismLaws prismFromSome"
  by (simp add: prismLaws_def prismFromSome_def split: option.splits)

lemma lensProp_laws: "lensLaws (lensProp k lensId)"
  by (simp add: lensLaws_def lensProp_def lensId_def)

section \<open>The identity law\<close>

lemma identityLaw_fromTraversable:
  "traverseIdentityLaw T \<Longrightarrow> identityLaw (fromTraversable T ())"
  by (simp add: traverseIdentityLaw_def identityLaw_def modify_fromTraversable)

lemma identityLaw_composeIso:
  "identityLaw sa \<Longrightarrow> isoLaws ab \<Longrightarrow> identityLaw (composeIso ab sa)"
  by (simp add: identityLaw_def isoLaws_def modify_composeIso)

lemma identityLaw_composeLens:
  "identityLaw sa \<Longrightarrow> lensLaws ab \<Longrightarrow> identityLaw (composeLens ab sa)"
  by (simp add: identityLaw_def lensLaws_def modify_composeLens)

lemma identityLaw_composePrism:
  "identityLaw sa \<Longrightarrow> prismLaws ab \<Longrightarrow> identityLaw (composePrism ab sa)"
  by (simp add: identityLaw_def prismLaws_def modify_composePrism)

lemma identityLaw_composeOptional:
  "identityLaw sa \<Longrightarrow> optionalLaws ab \<Longrightarrow> identityLaw (composeOptional ab sa)"
  by (simp add: identityLaw_def optionalLaws_def modify_composeOptional)

lemma identityLaw_composeTraversal:
  assumes "identityLaw sa" and "identityLaw ab"
  shows "identityLaw (composeTraversal ab sa)"
proof -
  have "modify (\<lambda>b. b) ab = (\<lambda>a. a)"
    using assms(2) by (simp add: identityLaw_def fun_eq_iff)
  then show ?thesis
    using assms(1) by (simp add: identityLaw_def modify_composeTraversal)
qed

lemma identityLaw_filterT: "identityLaw sa \<Longrightarrow> identityLaw (filterT p sa)"
  by (simp add: identityLaw_def modify_filterT)

lemma identityLaw_some: "identityLaw sa \<Longrightarrow> identityLaw (some sa)"
  unfolding some_def by (rule identityLaw_composePrism [OF _ prismFromSome_laws])

lemma identityLaw_propT: "identityLaw sa \<Longrightarrow> identityLaw (propT k sa)"
  unfolding propT_def by (rule identityLaw_composeLens [OF _ lensProp_laws])

lemma identityLawD: "identityLaw t \<Longrightarrow> modify (\<lambda>x. x) t s = s"
  by (simp add: identityLaw_def)

text \<open>
  C1. Identity law: \<^verbatim>\<open>modify(x => x)(t)(s)\<close> equals \<open>s\<close> for every Traversal \<open>t\<close> and every
  structure \<open>s\<close>. As stated the claim fails: the module verifies no law, and the
  Traversal of a strategy that traverses a sequence from its end returns \<open>[1, 2]\<close>
  reversed.
\<close>

theorem identity_law_counterexample:
  "modify id (fromTraversable reversingTraversable ()) [1, 2 :: int] \<noteq> [1, 2]"
  by (simp add: modify_fromTraversable reversingTraversable_def traverse_array_identity)

text \<open>
  C1, amended. The law holds of every Traversal built from law-abiding collaborators
  (the condition of sections 4.1 and 6 of the specification): \<^verbatim>\<open>modify(x => x)(t)(s)\<close>
  equals \<open>s\<close> when \<open>t\<close> is the Traversal of a strategy that obeys the identity law, or a
  Traversal that obeys the identity law composed with an iso, a lens, a prism, an
  optional or a traversal that obeys its laws, or narrowed by \<^verbatim>\<open>filter\<close>, \<^verbatim>\<open>prop\<close> or
  \<^verbatim>\<open>some\<close>. Every conclusion holds for all \<open>s\<close>, so the composed Traversal obeys the
  identity law again and can be composed further.
\<close>

theorem identity_law:
  "(traverseIdentityLaw T \<longrightarrow> modify (\<lambda>x. x) (fromTraversable T ()) s = s) \<and>
   (identityLaw sa1 \<and> isoLaws iso_ab
      \<longrightarrow> modify (\<lambda>x. x) (composeIso iso_ab sa1) s1 = s1) \<and>
   (identityLaw sa2 \<and> lensLaws lens_ab
      \<longrightarrow> modify (\<lambda>x. x) (composeLens lens_ab sa2) s2 = s2) \<and>
   (identityLaw sa3 \<and> prismLaws prism_ab
      \<longrightarrow> modify (\<lambda>x. x) (composePrism prism_ab sa3) s3 = s3) \<and>
   (identityLaw sa4 \<and> optionalLaws optional_ab
      \<longrightarrow> modify (\<lambda>x. x) (composeOptional optional_ab sa4) s4 = s4) \<and>
   (identityLaw sa5 \<and> identityLaw traversal_ab
      \<longrightarrow> modify (\<lambda>x. x) (composeTraversal traversal_ab sa5) s5 = s5) \<and>
   (identityLaw sa6 \<longrightarrow> modify (\<lambda>x. x) (filterT p sa6) s6 = s6) \<and>
   (identityLaw sa7 \<longrightarrow> modify (\<lambda>x. x) (propT k sa7) s7 = s7) \<and>
   (identityLaw sa8 \<longrightarrow> modify (\<lambda>x. x) (some sa8) s8 = s8)"
proof (intro conjI impI)
  show "modify (\<lambda>x. x) (fromTraversable T ()) s = s" if "traverseIdentityLaw T"
    by (rule identityLawD [OF identityLaw_fromTraversable [OF that]])
  show "modify (\<lambda>x. x) (composeIso iso_ab sa1) s1 = s1" if "identityLaw sa1 \<and> isoLaws iso_ab"
    by (rule identityLawD [OF identityLaw_composeIso]) (simp_all add: that)
  show "modify (\<lambda>x. x) (composeLens lens_ab sa2) s2 = s2" if "identityLaw sa2 \<and> lensLaws lens_ab"
    by (rule identityLawD [OF identityLaw_composeLens]) (simp_all add: that)
  show "modify (\<lambda>x. x) (composePrism prism_ab sa3) s3 = s3"
    if "identityLaw sa3 \<and> prismLaws prism_ab"
    by (rule identityLawD [OF identityLaw_composePrism]) (simp_all add: that)
  show "modify (\<lambda>x. x) (composeOptional optional_ab sa4) s4 = s4"
    if "identityLaw sa4 \<and> optionalLaws optional_ab"
    by (rule identityLawD [OF identityLaw_composeOptional]) (simp_all add: that)
  show "modify (\<lambda>x. x) (composeTraversal traversal_ab sa5) s5 = s5"
    if "identityLaw sa5 \<and> identityLaw traversal_ab"
    by (rule identityLawD [OF identityLaw_composeTraversal]) (simp_all add: that)
  show "modify (\<lambda>x. x) (filterT p sa6) s6 = s6" if "identityLaw sa6"
    by (rule identityLawD [OF identityLaw_filterT [OF that]])
  show "modify (\<lambda>x. x) (propT k sa7) s7 = s7" if "identityLaw sa7"
    by (rule identityLawD [OF identityLaw_propT [OF that]])
  show "modify (\<lambda>x. x) (some sa8) s8 = s8" if "identityLaw sa8"
    by (rule identityLawD [OF identityLaw_some [OF that]])
qed

text \<open>
  The law at work: the strategy for sequences obeys the identity law, so the Traversal
  over a sequence of optional numbers returns every sequence as it is; it therefore
  obeys the identity law, and through \<^verbatim>\<open>some\<close> the identity transformation returns
  \<open>[Some 1, None, Some 3]\<close>.
\<close>

theorem identity_law_witness:
  "traverseIdentityLaw (arrayTraversable ::
      ((int option, int option, int option list, int option list) Applicative,
       int option, int option, int option list, int option list) Traversable) \<and>
   identityLaw (fromTraversable (arrayTraversable ::
      ((int option, int option, int option list, int option list) Applicative,
       int option, int option, int option list, int option list) Traversable) ()) \<and>
   modify (\<lambda>x. x) (some (fromTraversable arrayTraversable ())) [Some 1, None, Some (3::int)]
     = [Some 1, None, Some 3]"
proof -
  let ?A = "fromTraversable (arrayTraversable ::
      ((int option, int option, int option list, int option list) Applicative,
       int option, int option, int option list, int option list) Traversable) ()"
  have 1: "identityLaw ?A"
    unfolding identityLaw_def
  proof
    fix s
    show "modify (\<lambda>a. a) ?A s = s"
      by (rule mp [OF conjunct1 [OF identity_law] array_identityLaw])
  qed
  have 2: "modify (\<lambda>x. x) (some ?A) [Some 1, None, Some 3] = [Some 1, None, Some 3]"
    by (rule mp [OF identity_law [THEN conjunct2, THEN conjunct2, THEN conjunct2,
      THEN conjunct2, THEN conjunct2, THEN conjunct2, THEN conjunct2, THEN conjunct2] 1])
  show ?thesis
    using array_identityLaw 1 2 by (intro conjI)
qed

section \<open>Idempotence of set\<close>

lemma idempotenceLaw_fromTraversable:
  "traverseCompositionLaw T \<Longrightarrow> idempotenceLaw (fromTraversable T ())"
  by (simp add: traverseCompositionLaw_def idempotenceLaw_def modify_fromTraversable)

text \<open>
  A composition runs the outer traversal with a transformation \<open>H h\<close> of the outer targets
  built from the transformation \<open>h\<close> of the inner ones; where \<open>H\<close> keeps idempotence, the
  composition keeps the law.
\<close>

lemma idempotenceLaw_lift:
  assumes "idempotenceLaw sa"
    and "\<And>h. \<forall>b. h (h b) = h b \<Longrightarrow> \<forall>a. H h (H h a) = H h a"
    and "\<And>h. modify h ta = modify (H h) sa"
  shows "idempotenceLaw ta"
  using assms unfolding idempotenceLaw_def by metis

lemma idempotenceLaw_composeIso:
  "idempotenceLaw sa \<Longrightarrow> isoLaws ab \<Longrightarrow> idempotenceLaw (composeIso ab sa)"
  by (erule idempotenceLaw_lift [where H = "\<lambda>h a. Iso.reverseGet ab (h (Iso.get ab a))"])
     (simp_all add: isoLaws_def modify_composeIso)

lemma idempotenceLaw_composeLens:
  "idempotenceLaw sa \<Longrightarrow> lensLaws ab \<Longrightarrow> idempotenceLaw (composeLens ab sa)"
  by (erule idempotenceLaw_lift [where H = "\<lambda>h a. Lens.set' ab (h (Lens.get ab a)) a"])
     (simp_all add: lensLaws_def modify_composeLens)

lemma idempotenceLaw_composePrism:
  "idempotenceLaw sa \<Longrightarrow> prismLaws ab \<Longrightarrow> idempotenceLaw (composePrism ab sa)"
  by (erule idempotenceLaw_lift
        [where H = "\<lambda>h a. case Prism.getOption ab a of
                             None \<Rightarrow> a
                           | Some b \<Rightarrow> Prism.reverseGet ab (h b)"])
     (simp_all add: prismLaws_def modify_composePrism split: option.splits)

lemma idempotenceLaw_composeOptional:
  "idempotenceLaw sa \<Longrightarrow> optionalLaws ab \<Longrightarrow> idempotenceLaw (composeOptional ab sa)"
  by (erule idempotenceLaw_lift
        [where H = "\<lambda>h a. case Optional.getOption ab a of
                             None \<Rightarrow> a
                           | Some b \<Rightarrow> Optional.set' ab (h b) a"])
     (simp_all add: optionalLaws_def modify_composeOptional split: option.splits)

lemma idempotenceLaw_composeTraversal:
  "idempotenceLaw sa \<Longrightarrow> idempotenceLaw ab \<Longrightarrow> idempotenceLaw (composeTraversal ab sa)"
  by (erule idempotenceLaw_lift [where H = "\<lambda>h. modify h ab"])
     (simp_all add: idempotenceLaw_def modify_composeTraversal)

lemma idempotenceLaw_filterT: "idempotenceLaw sa \<Longrightarrow> idempotenceLaw (filterT p sa)"
  by (erule idempotenceLaw_lift [where H = "\<lambda>h a. if p a then h a else a"])
     (simp_all add: modify_filterT)

lemma idempotenceLaw_some: "idempotenceLaw sa \<Longrightarrow> idempotenceLaw (some sa)"
  unfolding some_def by (rule idempotenceLaw_composePrism [OF _ prismFromSome_laws])

lemma idempotenceLaw_propT: "idempotenceLaw sa \<Longrightarrow> idempotenceLaw (propT k sa)"
  unfolding propT_def by (rule idempotenceLaw_composeLens [OF _ lensProp_laws])

lemma setT_idem: "idempotenceLaw sa \<Longrightarrow> setT a sa (setT a sa s) = setT a sa s"
  by (simp add: idempotenceLaw_def setT_def)

text \<open>
  C5. \<^verbatim>\<open>set(a)(t)\<close> is \<^verbatim>\<open>modify\<close> with the constant function that returns \<open>a\<close>, and applying
  it twice to any structure gives what applying it once gives, for every Traversal \<open>t\<close>.
  As stated the second part fails: the module verifies no law, and with the Traversal of
  a strategy that traverses a sequence twice, setting \<open>7\<close> on \<open>[1]\<close> gives two elements
  and setting it again gives four.
\<close>

theorem set_idempotent_counterexample:
  "setT 7 (fromTraversable doublingTraversable ())
       (setT 7 (fromTraversable doublingTraversable ()) [1 :: int])
     \<noteq> setT 7 (fromTraversable doublingTraversable ()) [1 :: int]"
  by (simp add: setT_def modify_fromTraversable doublingTraversable_def traverse_array_identity)

text \<open>
  C5, amended. \<^verbatim>\<open>set(a)(t)\<close> is \<^verbatim>\<open>modify\<close> with the constant function that returns \<open>a\<close>, for
  every Traversal \<open>t\<close>. Applying it twice gives what applying it once gives for every
  Traversal built from law-abiding collaborators (the condition of sections 4.1 and 6 of
  the specification): the Traversal of a strategy that obeys the composition law, or a
  Traversal whose \<^verbatim>\<open>modify\<close> is idempotent on idempotent transformations composed with an
  iso, a lens, a prism, an optional or a traversal that obeys its laws, or narrowed by
  \<^verbatim>\<open>filter\<close>, \<^verbatim>\<open>prop\<close> or \<^verbatim>\<open>some\<close>. Each of these Traversals has the property again (also
  under \<^verbatim>\<open>filter\<close>, whose prism does not obey the prism laws), so it can be composed
  further.
\<close>

theorem set_idempotent:
  "setT a sa = modify (\<lambda>_. a) sa \<and>
   (traverseCompositionLaw T
      \<longrightarrow> idempotenceLaw (fromTraversable T ()) \<and>
          setT a0 (fromTraversable T ()) (setT a0 (fromTraversable T ()) s0) = setT a0 (fromTraversable T ()) s0) \<and>
   (idempotenceLaw sa1 \<and> isoLaws iso_ab
      \<longrightarrow> idempotenceLaw (composeIso iso_ab sa1) \<and>
          setT a1 (composeIso iso_ab sa1) (setT a1 (composeIso iso_ab sa1) s1) = setT a1 (composeIso iso_ab sa1) s1) \<and>
   (idempotenceLaw sa2 \<and> lensLaws lens_ab
      \<longrightarrow> idempotenceLaw (composeLens lens_ab sa2) \<and>
          setT a2 (composeLens lens_ab sa2) (setT a2 (composeLens lens_ab sa2) s2) = setT a2 (composeLens lens_ab sa2) s2) \<and>
   (idempotenceLaw sa3 \<and> prismLaws prism_ab
      \<longrightarrow> idempotenceLaw (composePrism prism_ab sa3) \<and>
          setT a3 (composePrism prism_ab sa3) (setT a3 (composePrism prism_ab sa3) s3) = setT a3 (composePrism prism_ab sa3) s3) \<and>
   (idempotenceLaw sa4 \<and> optionalLaws optional_ab
      \<longrightarrow> idempotenceLaw (composeOptional optional_ab sa4) \<and>
          setT a4 (composeOptional optional_ab sa4) (setT a4 (composeOptional optional_ab sa4) s4) = setT a4 (composeOptional optional_ab sa4) s4) \<and>
   (idempotenceLaw sa5 \<and> idempotenceLaw traversal_ab
      \<longrightarrow> idempotenceLaw (composeTraversal traversal_ab sa5) \<and>
          setT a5 (composeTraversal traversal_ab sa5) (setT a5 (composeTraversal traversal_ab sa5) s5) = setT a5 (composeTraversal traversal_ab sa5) s5) \<and>
   (idempotenceLaw sa6
      \<longrightarrow> idempotenceLaw (filterT p sa6) \<and>
          setT a6 (filterT p sa6) (setT a6 (filterT p sa6) s6) = setT a6 (filterT p sa6) s6) \<and>
   (idempotenceLaw sa7
      \<longrightarrow> idempotenceLaw (propT k sa7) \<and>
          setT a7 (propT k sa7) (setT a7 (propT k sa7) s7) = setT a7 (propT k sa7) s7) \<and>
   (idempotenceLaw sa8
      \<longrightarrow> idempotenceLaw (some sa8) \<and>
          setT a8 (some sa8) (setT a8 (some sa8) s8) = setT a8 (some sa8) s8)"
proof (intro conjI impI)
  show "setT a sa = modify (\<lambda>_. a) sa"
    by (simp add: setT_def)
  show "idempotenceLaw (fromTraversable T ())"
    if "traverseCompositionLaw T"
    using that by (simp add: idempotenceLaw_fromTraversable)
  show "setT a0 (fromTraversable T ()) (setT a0 (fromTraversable T ()) s0) = setT a0 (fromTraversable T ()) s0"
    if "traverseCompositionLaw T"
    using that by (simp add: idempotenceLaw_fromTraversable setT_idem)
  show "idempotenceLaw (composeIso iso_ab sa1)"
    if "idempotenceLaw sa1 \<and> isoLaws iso_ab"
    using that by (simp add: idempotenceLaw_composeIso)
  show "setT a1 (composeIso iso_ab sa1) (setT a1 (composeIso iso_ab sa1) s1) = setT a1 (composeIso iso_ab sa1) s1"
    if "idempotenceLaw sa1 \<and> isoLaws iso_ab"
    using that by (simp add: idempotenceLaw_composeIso setT_idem)
  show "idempotenceLaw (composeLens lens_ab sa2)"
    if "idempotenceLaw sa2 \<and> lensLaws lens_ab"
    using that by (simp add: idempotenceLaw_composeLens)
  show "setT a2 (composeLens lens_ab sa2) (setT a2 (composeLens lens_ab sa2) s2) = setT a2 (composeLens lens_ab sa2) s2"
    if "idempotenceLaw sa2 \<and> lensLaws lens_ab"
    using that by (simp add: idempotenceLaw_composeLens setT_idem)
  show "idempotenceLaw (composePrism prism_ab sa3)"
    if "idempotenceLaw sa3 \<and> prismLaws prism_ab"
    using that by (simp add: idempotenceLaw_composePrism)
  show "setT a3 (composePrism prism_ab sa3) (setT a3 (composePrism prism_ab sa3) s3) = setT a3 (composePrism prism_ab sa3) s3"
    if "idempotenceLaw sa3 \<and> prismLaws prism_ab"
    using that by (simp add: idempotenceLaw_composePrism setT_idem)
  show "idempotenceLaw (composeOptional optional_ab sa4)"
    if "idempotenceLaw sa4 \<and> optionalLaws optional_ab"
    using that by (simp add: idempotenceLaw_composeOptional)
  show "setT a4 (composeOptional optional_ab sa4) (setT a4 (composeOptional optional_ab sa4) s4) = setT a4 (composeOptional optional_ab sa4) s4"
    if "idempotenceLaw sa4 \<and> optionalLaws optional_ab"
    using that by (simp add: idempotenceLaw_composeOptional setT_idem)
  show "idempotenceLaw (composeTraversal traversal_ab sa5)"
    if "idempotenceLaw sa5 \<and> idempotenceLaw traversal_ab"
    using that by (simp add: idempotenceLaw_composeTraversal)
  show "setT a5 (composeTraversal traversal_ab sa5) (setT a5 (composeTraversal traversal_ab sa5) s5) = setT a5 (composeTraversal traversal_ab sa5) s5"
    if "idempotenceLaw sa5 \<and> idempotenceLaw traversal_ab"
    using that by (simp add: idempotenceLaw_composeTraversal setT_idem)
  show "idempotenceLaw (filterT p sa6)"
    if "idempotenceLaw sa6"
    using that by (simp add: idempotenceLaw_filterT)
  show "setT a6 (filterT p sa6) (setT a6 (filterT p sa6) s6) = setT a6 (filterT p sa6) s6"
    if "idempotenceLaw sa6"
    using that by (simp add: idempotenceLaw_filterT setT_idem)
  show "idempotenceLaw (propT k sa7)"
    if "idempotenceLaw sa7"
    using that by (simp add: idempotenceLaw_propT)
  show "setT a7 (propT k sa7) (setT a7 (propT k sa7) s7) = setT a7 (propT k sa7) s7"
    if "idempotenceLaw sa7"
    using that by (simp add: idempotenceLaw_propT setT_idem)
  show "idempotenceLaw (some sa8)"
    if "idempotenceLaw sa8"
    using that by (simp add: idempotenceLaw_some)
  show "setT a8 (some sa8) (setT a8 (some sa8) s8) = setT a8 (some sa8) s8"
    if "idempotenceLaw sa8"
    using that by (simp add: idempotenceLaw_some setT_idem)
qed

text \<open>
  The law at work on the even elements of \<open>[1, 2, 3, 4]\<close>: the strategy for sequences
  obeys the composition law, so its Traversal has the property, \<^verbatim>\<open>filter\<close> keeps it, and
  setting \<open>0\<close> twice is setting it once.
\<close>

theorem set_idempotent_witness:
  "traverseCompositionLaw (arrayTraversable ::
      ((int, int, int list, int list) Applicative, int, int, int list, int list) Traversable) \<and>
   setT 0 (filterT (\<lambda>n. n mod 2 = 0) (fromTraversable arrayTraversable ()))
       (setT 0 (filterT (\<lambda>n. n mod 2 = 0) (fromTraversable arrayTraversable ()))
          [1, 2, 3, 4 :: int])
     = setT 0 (filterT (\<lambda>n. n mod 2 = 0) (fromTraversable arrayTraversable ()))
         [1, 2, 3, 4 :: int] \<and>
   setT 0 (filterT (\<lambda>n. n mod 2 = 0) (fromTraversable arrayTraversable ())) [1, 2, 3, 4 :: int]
     = [1, 0, 3, 0]"
proof -
  let ?A = "fromTraversable (arrayTraversable ::
      ((int, int, int list, int list) Applicative, int, int, int list, int list) Traversable) ()"
  let ?t = "filterT (\<lambda>n. n mod 2 = 0) ?A"
  note rest = set_idempotent [THEN conjunct2]
  have 1: "idempotenceLaw ?A"
    by (rule conjunct1 [OF mp [OF conjunct1 [OF rest] array_compositionLaw]])
  have 3: "setT 0 ?t (setT 0 ?t [1, 2, 3, 4]) = setT 0 ?t [1, 2, 3, 4]"
    by (rule conjunct2 [OF mp [OF conjunct1 [OF rest [THEN conjunct2, THEN conjunct2,
      THEN conjunct2, THEN conjunct2, THEN conjunct2, THEN conjunct2]] 1]])
  have 4: "setT 0 ?t [1, 2, 3, 4] = [1, 0, 3, 0]"
    by (simp add: setT_def modify_filterT modify_array)
  show ?thesis
    using array_compositionLaw 3 4 by (intro conjI)
qed

section \<open>The combinators on their targets\<close>

text \<open>
  C2. Filter exclusion: \<^verbatim>\<open>modify(f)(filter(p)(t))(s)\<close> changes the targets of \<open>t\<close> in \<open>s\<close> for
  which \<open>p\<close> holds and nothing else. For every Traversal \<open>t\<close> it is \<^verbatim>\<open>modify\<close> of \<open>t\<close> with the
  transformation that applies \<open>f\<close> where \<open>p\<close> holds and returns every other target as it
  is, so that the rest of \<open>s\<close> is treated as \<open>t\<close> itself treats it; on a sequence every
  element stays at its place, changed if and only if \<open>p\<close> holds of it; and on \<open>[1, 2, 3, 4]\<close>
  with the even numbers, \<^verbatim>\<open>set(0)\<close> gives \<open>[1, 0, 3, 0]\<close>.
\<close>

theorem filter_exclusion:
  "modify f (filterT p t) s = modify (\<lambda>a. if p a then f a else a) t s \<and>
   modify f (filterT p (fromTraversable arrayTraversable ())) xs
     = map (\<lambda>a. if p a then f a else a) xs \<and>
   setT 0 (filterT (\<lambda>n. n mod 2 = 0) (fromTraversable arrayTraversable ())) [1, 2, 3, 4 :: int]
     = [1, 0, 3, 0]"
  by (simp add: modify_filterT modify_array setT_def)

text \<open>
  C3. A Traversal composed with a prism or an optional leaves a target on which the
  prism or optional does not match as it is, for that target only: the composition is
  \<^verbatim>\<open>modify\<close> of the outer Traversal with a total transformation that returns the
  non-matching target unchanged and rebuilds a matching one, and on a sequence every
  element is visited (the result is the image of the whole sequence, of the same length,
  whatever the elements before it did). No path of the composition raises, so the
  model has no failure value.
\<close>

theorem compose_partial_skips_target_only:
  "modify f (composePrism prism_ab sa) s
     = modify (\<lambda>a. case Prism.getOption prism_ab a of
                      None \<Rightarrow> a
                    | Some b \<Rightarrow> Prism.reverseGet prism_ab (f b)) sa s \<and>
   modify g (composeOptional optional_ab sb) s'
     = modify (\<lambda>a. case Optional.getOption optional_ab a of
                      None \<Rightarrow> a
                    | Some b \<Rightarrow> Optional.set' optional_ab (g b) a) sb s' \<and>
   modify f (composePrism prism_ab (fromTraversable arrayTraversable ())) xs
     = map (\<lambda>a. case Prism.getOption prism_ab a of
                   None \<Rightarrow> a
                 | Some b \<Rightarrow> Prism.reverseGet prism_ab (f b)) xs \<and>
   modify g (composeOptional optional_ab (fromTraversable arrayTraversable ())) ys
     = map (\<lambda>a. case Optional.getOption optional_ab a of
                   None \<Rightarrow> a
                 | Some b \<Rightarrow> Optional.set' optional_ab (g b) a) ys"
  by (simp add: modify_composePrism modify_composeOptional modify_array)

text \<open>
  C4. \<^verbatim>\<open>modify(f)(t)\<close> is the primitive \<^verbatim>\<open>modifyF\<close> of \<open>t\<close> run with the identity applicative and
  \<open>f\<close> as the function on the targets, and its result is the transformed structure
  itself: for the Traversal of a strategy it is the strategy's traversal with \<open>f\<close>, and
  on a sequence every element is replaced by \<open>f\<close> of its value, at its place.
\<close>

theorem modify_runs_primitive_at_identity:
  "modify f t = modifyF t identity f \<and>
   modify f (fromTraversable T ()) s = traverse T identity s f \<and>
   modify f (fromTraversable arrayTraversable ()) xs = map f xs"
  by (simp add: modify_fromTraversable traverse_array_identity) (simp add: modify_def)

text \<open>
  C6. Prop round-trip: after \<^verbatim>\<open>set(v)(prop("x")(t))(s)\<close> the field \<open>x\<close> of every target of \<open>t\<close>
  is \<open>v\<close> and the other fields of the targets are unchanged. For every Traversal \<open>t\<close> the
  result is \<^verbatim>\<open>modify\<close> of \<open>t\<close> with the update of the field; for the Traversal of a strategy
  that obeys the composition law, whatever reads the targets of the result next reads
  the targets of \<open>s\<close> with the field set to \<open>v\<close>; on a sequence, the field \<open>k\<close> of every
  element of the result is \<open>v\<close>, every other field \<open>k'\<close> reads as before, and no element
  is added or lost.
\<close>

theorem prop_round_trip:
  "setT v (propT k t) s = modify (\<lambda>a. a(k := v)) t s \<and>
   (traverseCompositionLaw T \<longrightarrow>
      modify g (fromTraversable T ()) (setT v (propT k (fromTraversable T ())) s')
        = modify (\<lambda>a. g (a(k := v))) (fromTraversable T ()) s') \<and>
   map (\<lambda>a. a k) (setT v (propT k (fromTraversable arrayTraversable ())) xs)
     = replicate (length xs) v \<and>
   (k' \<noteq> k \<longrightarrow>
      map (\<lambda>a. a k') (setT v (propT k (fromTraversable arrayTraversable ())) xs)
        = map (\<lambda>a. a k') xs) \<and>
   length (setT v (propT k (fromTraversable arrayTraversable ())) xs) = length xs"
proof (intro conjI impI)
  show "setT v (propT k t) s = modify (\<lambda>a. a(k := v)) t s"
    by (simp add: setT_def modify_propT)
  show "modify g (fromTraversable T ()) (setT v (propT k (fromTraversable T ())) s')
          = modify (\<lambda>a. g (a(k := v))) (fromTraversable T ()) s'"
    if "traverseCompositionLaw T"
    using that
    by (simp add: setT_def modify_propT modify_fromTraversable traverseCompositionLaw_def)
  show "map (\<lambda>a. a k) (setT v (propT k (fromTraversable arrayTraversable ())) xs)
          = replicate (length xs) v"
    by (simp add: setT_def modify_propT modify_array comp_def map_replicate_const)
  show "map (\<lambda>a. a k') (setT v (propT k (fromTraversable arrayTraversable ())) xs)
          = map (\<lambda>a. a k') xs" if "k' \<noteq> k"
    using that by (simp add: setT_def modify_propT modify_array)
  show "length (setT v (propT k (fromTraversable arrayTraversable ())) xs) = length xs"
    by (simp add: setT_def modify_propT modify_array)
qed

text \<open>
  The scenario of the specification: on \<^verbatim>\<open>[{x: 1, y: "a"}, {x: 2, y: "b"}]\<close>, \<^verbatim>\<open>set(0)\<close> through
  \<^verbatim>\<open>prop("x")\<close> gives \<^verbatim>\<open>[{x: 0, y: "a"}, {x: 0, y: "b"}]\<close>, and the field \<open>y\<close> reads as before.
\<close>

theorem prop_round_trip_witness:
  "Field_y \<noteq> Field_x \<and>
   setT (Num 0) (propT Field_x (fromTraversable arrayTraversable ()))
       [(\<lambda>k. case k of Field_x \<Rightarrow> Num 1 | Field_y \<Rightarrow> Str ''a''),
        (\<lambda>k. case k of Field_x \<Rightarrow> Num 2 | Field_y \<Rightarrow> Str ''b'')]
     = [(\<lambda>k. case k of Field_x \<Rightarrow> Num 0 | Field_y \<Rightarrow> Str ''a''),
        (\<lambda>k. case k of Field_x \<Rightarrow> Num 0 | Field_y \<Rightarrow> Str ''b'')] \<and>
   map (\<lambda>a. a Field_y)
       (setT (Num 0) (propT Field_x (fromTraversable arrayTraversable ()))
          [(\<lambda>k. case k of Field_x \<Rightarrow> Num 1 | Field_y \<Rightarrow> Str ''a''),
           (\<lambda>k. case k of Field_x \<Rightarrow> Num 2 | Field_y \<Rightarrow> Str ''b'')])
     = [Str ''a'', Str ''b'']"
proof -
  let ?xs = "[(\<lambda>k. case k of Field_x \<Rightarrow> Num 1 | Field_y \<Rightarrow> Str ''a''),
              (\<lambda>k. case k of Field_x \<Rightarrow> Num 2 | Field_y \<Rightarrow> Str ''b'')]"
  let ?A = "fromTraversable (arrayTraversable ::
      ((field \<Rightarrow> val, field \<Rightarrow> val, (field \<Rightarrow> val) list, (field \<Rightarrow> val) list) Applicative,
       field \<Rightarrow> val, field \<Rightarrow> val, (field \<Rightarrow> val) list, (field \<Rightarrow> val) list) Traversable) ()"
  note law = prop_round_trip [where k = Field_x and k' = Field_y and v = "Num 0" and xs = ?xs
      and t = ?A and s = ?xs]
  have 1: "setT (Num 0) (propT Field_x ?A) ?xs = modify (\<lambda>a. a(Field_x := Num 0)) ?A ?xs"
    by (rule conjunct1 [OF law])
  have 2: "map (\<lambda>a. a Field_y) (setT (Num 0) (propT Field_x ?A) ?xs) = map (\<lambda>a. a Field_y) ?xs"
    by (rule mp [OF conjunct1 [OF law [THEN conjunct2, THEN conjunct2, THEN conjunct2]]]) simp
  have 3: "modify (\<lambda>a. a(Field_x := Num 0)) ?A ?xs
           = [(\<lambda>k. case k of Field_x \<Rightarrow> Num 0 | Field_y \<Rightarrow> Str ''a''),
              (\<lambda>k. case k of Field_x \<Rightarrow> Num 0 | Field_y \<Rightarrow> Str ''b'')]"
    by (simp add: modify_array fun_eq_iff split: field.splits)
  show ?thesis
    using 1 2 3 by simp
qed

text \<open>
  C7. \<^verbatim>\<open>some(t)\<close>, for a Traversal \<open>t\<close> whose targets are optional values, visits the present
  targets and no other: \<^verbatim>\<open>modify(f)\<close> through it is \<^verbatim>\<open>modify\<close> of \<open>t\<close> with the transformation
  that applies \<open>f\<close> inside a present target and returns an absent one as it is; on a
  sequence every element stays at its place; and on \<open>[Some 1, None, Some 3]\<close> adding one
  gives \<open>[Some 2, None, Some 4]\<close>.
\<close>

theorem some_focus:
  "modify f (some t) s
     = modify (\<lambda>oa. case oa of None \<Rightarrow> None | Some a \<Rightarrow> Some (f a)) t s \<and>
   modify f (some (fromTraversable arrayTraversable ())) xs
     = map (\<lambda>oa. case oa of None \<Rightarrow> None | Some a \<Rightarrow> Some (f a)) xs \<and>
   modify (\<lambda>n. n + 1) (some (fromTraversable arrayTraversable ())) [Some 1, None, Some (3::int)]
     = [Some 2, None, Some 4]"
  by (simp add: modify_some modify_array)

section \<open>The Traversal of a strategy\<close>

text \<open>
  C8. For the Traversal that \<^verbatim>\<open>fromTraversable\<close> builds over a sequence, \<^verbatim>\<open>modify(n => n * 10)\<close>
  on \<open>[1, 2, 3]\<close> returns \<open>[10, 20, 30]\<close>: every element is transformed, in order, and the
  length and the positions are kept.
\<close>

theorem modify_sequence_scenario:
  "modify (\<lambda>n. n * 10) (fromTraversable arrayTraversable ()) [1, 2, 3 :: int] = [10, 20, 30] \<and>
   modify f (fromTraversable arrayTraversable ()) xs = map f xs \<and>
   length (modify f (fromTraversable arrayTraversable ()) xs) = length xs"
  by (simp add: modify_array)

text \<open>
  C9. The Traversal of \<^verbatim>\<open>fromTraversable(T)\<close> adapts the strategy and adds nothing: for every
  applicative \<open>F\<close>, every function \<open>f\<close> on the elements and every container \<open>s\<close>, its
  primitive \<^verbatim>\<open>modifyF(F)(f)(s)\<close> is \<^verbatim>\<open>T.traverse(F)(s, f)\<close>. The types of \<open>F\<close> and of the
  effectful values are type variables, so the equation holds at every effect.
\<close>

theorem fromTraversable_is_traverse:
  "modifyF (fromTraversable T ()) F f s = traverse T F s f"
  by (simp add: fromTraversable_def)

text \<open>
  At two effects on \<open>[1, 2, 3]\<close>: with the identity effect the primitive rebuilds the
  sequence, with the recording effect it yields the elements in the order in which
  they are visited.
\<close>

theorem fromTraversable_is_traverse_witness:
  "modifyF (fromTraversable arrayTraversable ()) identity (\<lambda>n. n * 10) [1, 2, 3 :: int]
     = [10, 20, 30] \<and>
   modifyF (fromTraversable arrayTraversable ()) recording (\<lambda>n. [n]) [1, 2, 3 :: int]
     = [1, 2, 3]"
proof -
  have "traverse arrayTraversable identity [1, 2, 3 :: int] (\<lambda>n. n * 10) = [10, 20, 30]"
    by (simp add: arrayTraversable_def identity_def)
  moreover have "traverse arrayTraversable recording [1, 2, 3 :: int] (\<lambda>n. [n]) = [1, 2, 3]"
    by (simp add: arrayTraversable_def recording_def)
  ultimately show ?thesis
    by (simp add: fromTraversable_is_traverse)
qed

text \<open>
  C10. For the Traversal \<open>t\<close> of a law-abiding strategy, modifications fuse:
  \<^verbatim>\<open>modify(g)(t)\<close> after \<^verbatim>\<open>modify(f)(t)\<close> is \<^verbatim>\<open>modify(x => g(f(x)))(t)\<close> on every structure. Two
  consequences: \<^verbatim>\<open>set\<close> is idempotent, and of two \<^verbatim>\<open>set\<close>s the last one wins.
\<close>

theorem modify_fusion:
  assumes "traverseCompositionLaw T"
  shows "modify g (fromTraversable T ()) (modify f (fromTraversable T ()) s)
           = modify (\<lambda>x. g (f x)) (fromTraversable T ()) s \<and>
         setT a (fromTraversable T ()) (setT a (fromTraversable T ()) s)
           = setT a (fromTraversable T ()) s \<and>
         setT b (fromTraversable T ()) (setT a (fromTraversable T ()) s)
           = setT b (fromTraversable T ()) s"
  using assms by (simp add: traverseCompositionLaw_def modify_fromTraversable setT_def)

text \<open>
  On \<open>[1, 2, 3]\<close>: adding one and then doubling is \<open>[4, 6, 8]\<close>, as is doing both at once;
  setting \<open>5\<close> and then \<open>7\<close> leaves \<open>7\<close> everywhere.
\<close>

theorem modify_fusion_witness:
  "traverseCompositionLaw (arrayTraversable ::
      ((int, int, int list, int list) Applicative, int, int, int list, int list) Traversable) \<and>
   modify (\<lambda>n. n * 2) (fromTraversable arrayTraversable ())
       (modify (\<lambda>n. n + 1) (fromTraversable arrayTraversable ()) [1, 2, 3 :: int])
     = [4, 6, 8] \<and>
   modify (\<lambda>n. (n + 1) * 2) (fromTraversable arrayTraversable ()) [1, 2, 3 :: int] = [4, 6, 8] \<and>
   setT 7 (fromTraversable arrayTraversable ())
       (setT 5 (fromTraversable arrayTraversable ()) [1, 2, 3 :: int])
     = [7, 7, 7]"
  using modify_fusion [OF array_compositionLaw, of "\<lambda>n. n * 2" "\<lambda>n. n + 1" "[1, 2, 3 :: int]" 5 7]
    array_compositionLaw
  by (simp add: modify_array setT_def)

text \<open>
  The fusion belongs to the Traversal of the strategy itself. \<^verbatim>\<open>filter\<close> keeps the
  idempotence of \<^verbatim>\<open>set\<close> but not the fusion, since a modification can move a target out
  of the predicate: on \<open>[2]\<close> with the even numbers, adding one twice stops at \<open>[3]\<close>,
  adding two at once gives \<open>[4]\<close>.
\<close>

lemma filter_does_not_fuse:
  "modify (\<lambda>n. n + 1) (filterT (\<lambda>n. n mod 2 = 0) (fromTraversable arrayTraversable ()))
       (modify (\<lambda>n. n + 1) (filterT (\<lambda>n. n mod 2 = 0) (fromTraversable arrayTraversable ()))
          [2 :: int])
     = [3] \<and>
   modify (\<lambda>n. (n + 1) + 1) (filterT (\<lambda>n. n mod 2 = 0) (fromTraversable arrayTraversable ()))
       [2 :: int]
     = [4]"
  by (simp add: modify_filterT modify_array)

end
